theory Spec2Isabelle
  imports Main
begin

section \<open>JavaScript values used by the task-list view\<close>

text \<open>
  Strings are lists of characters. A JavaScript number that the view reads from the
  address bar is either an integer or \<open>NaN\<close>; the model keeps integers exact (the
  source's doubles are exact up to \<open>2^53\<close>).
\<close>

datatype number = NaN | Num int

text \<open>
  The white space that \<open>trim\<close> and \<open>parseInt\<close> skip, among the characters below 256:
  tab, line feed, vertical tab, form feed, carriage return, space and no-break space.
\<close>

definition isWhiteSpace :: "char \<Rightarrow> bool" where
  "isWhiteSpace c \<longleftrightarrow> (of_char c :: nat) \<in> {9, 10, 11, 12, 13, 32, 160}"

definition isDigit :: "char \<Rightarrow> bool" where
  "isDigit c \<longleftrightarrow> 48 \<le> (of_char c :: nat) \<and> (of_char c :: nat) \<le> 57"

definition digitValue :: "char \<Rightarrow> nat" where
  "digitValue c = of_char c - 48"

definition digitsValue :: "string \<Rightarrow> nat" where
  "digitsValue ds = foldl (\<lambda>acc c. 10 * acc + digitValue c) 0 ds"

text \<open>
  \<open>parseInt(s, 10)\<close>: leading white space is skipped, one sign is read, then the longest
  run of decimal digits; with no digit the result is \<open>NaN\<close>; whatever follows the digits
  is ignored.
\<close>

definition parseInt :: "string \<Rightarrow> number" where
  "parseInt s =
     (let S = dropWhile isWhiteSpace s;
          sign = (if S \<noteq> [] \<and> hd S = CHR ''-'' then - 1 else 1 :: int);
          S' = (if S \<noteq> [] \<and> (hd S = CHR ''+'' \<or> hd S = CHR ''-'') then tl S else S);
          Z = takeWhile isDigit S'
      in if Z = [] then NaN else Num (sign * int (digitsValue Z)))"

definition digitChar :: "nat \<Rightarrow> char" where
  "digitChar d = char_of (48 + d)"

function natDigits :: "nat \<Rightarrow> string" where
  "natDigits n = (if n < 10 then [digitChar n] else natDigits (n div 10) @ [digitChar (n mod 10)])"
  by pat_completeness auto
termination
  by (relation "measure id") auto

declare natDigits.simps [simp del]






section \<open>URLSearchParams\<close>

text \<open>
  The query parameters are an ordered list of name/value pairs, duplicates allowed, as
  in the platform's \<open>URLSearchParams\<close>: \<open>get\<close> returns the first value of a name,
  \<open>delete\<close> removes every pair of a name, \<open>set\<close> overwrites the first pair of a name and
  removes the others, or appends a pair when the name is absent.
\<close>

type_synonym URLSearchParams = "(string \<times> string) list"

definition usp_get :: "URLSearchParams \<Rightarrow> string \<Rightarrow> string option" where
  "usp_get sp name = map_of sp name"

definition usp_delete :: "URLSearchParams \<Rightarrow> string \<Rightarrow> URLSearchParams" where
  "usp_delete sp name = filter (\<lambda>kv. fst kv \<noteq> name) sp"

fun usp_set :: "URLSearchParams \<Rightarrow> string \<Rightarrow> string \<Rightarrow> URLSearchParams" where
  "usp_set [] name v = [(name, v)]"
| "usp_set (kv # sp) name v =
     (if fst kv = name then (name, v) # usp_delete sp name else kv # usp_set sp name v)"

definition usp_has :: "URLSearchParams \<Rightarrow> string \<Rightarrow> bool" where
  "usp_has sp name \<longleftrightarrow> name \<in> fst ` set sp"

text \<open>\<open>searchParams.get(name) || dflt\<close>: the default replaces \<open>null\<close> and the empty string.\<close>

definition get_or :: "URLSearchParams \<Rightarrow> string \<Rightarrow> string \<Rightarrow> string" where
  "get_or sp name dflt =
     (case usp_get sp name of None \<Rightarrow> dflt | Some v \<Rightarrow> if v = [] then dflt else v)"

section \<open>The filter set derived from the URL (Dashboard)\<close>


definition page :: "URLSearchParams \<Rightarrow> number" where
  "page searchParams = parseInt (get_or searchParams ''page'' ''1'')"

definition per_page :: "URLSearchParams \<Rightarrow> number" where
  "per_page searchParams = parseInt (get_or searchParams ''per_page'' ''10'')"


text \<open>
  \<open>handleFilterChange(key, value)\<close>: every caller passes a string, so \<open>value\<close> is truthy
  iff it is not empty. The result is what \<open>setSearchParams\<close> receives.
\<close>

definition handleFilterChange :: "URLSearchParams \<Rightarrow> string \<Rightarrow> string \<Rightarrow> URLSearchParams" where
  "handleFilterChange searchParams key v =
     (let newParams = searchParams;
          newParams = (if v \<noteq> [] \<and> v \<noteq> ''all'' \<and> v \<noteq> ''unassigned''
                       then usp_set newParams key v
                       else usp_delete newParams key)
      in usp_set newParams ''page'' ''1'')"

definition clearFilters :: URLSearchParams where
  "clearFilters =
     [(''page'', ''1''), (''per_page'', ''10''), (''sort_by'', ''created_at''), (''sort_order'', ''desc'')]"

section \<open>The parameter codec\<close>






text \<open>
  \<open>normalize\<close> follows the specification's words: a no-op value (the empty string,
  \<open>all\<close>, \<open>unassigned\<close>) is stripped, and an absent key takes its default
  (page 1, per_page 10, sort_by created_at, sort_order desc, anything else empty).
\<close>

definition isNoOp :: "string \<Rightarrow> bool" where
  "isNoOp v \<longleftrightarrow> v = [] \<or> v = ''all'' \<or> v = ''unassigned''"

definition strip :: "string \<Rightarrow> string \<Rightarrow> string" where
  "strip dflt v = (if isNoOp v then dflt else v)"


section \<open>Pagination controls\<close>

record PaginationMeta =
  pg_page :: number
  pg_per_page :: number
  total :: number
  total_pages :: number







section \<open>Form validation\<close>

text \<open>
  The messages are the translation keys the effect asks for, with their parameters.
  A \<open>Date\<close> is its time value: milliseconds since the epoch, or \<open>NaN\<close> for an invalid
  date; \<open>due_date\<close> is \<open>None\<close> for \<open>null\<close>.
\<close>

datatype message = titleLengthError nat nat | titleRequiredError | dueDateInPastError

record TaskForm =
  title :: string
  description :: string
  form_status :: string
  form_priority :: string
  due_date :: "number option"
  form_tags :: string
  form_assigned_to :: string

record FormErrors =
  errors_title :: "message option"
  errors_due_date :: "message option"

definition trim :: "string \<Rightarrow> string" where
  "trim s = rev (dropWhile isWhiteSpace (rev (dropWhile isWhiteSpace s)))"

definition msPerDay :: int where
  "msPerDay = 86400000"

text \<open>
  \<open>setHours(0, 0, 0, 0)\<close> moves a date to the start of its local day. The local zone is
  a fixed offset \<open>tza\<close> in milliseconds east of UTC (no daylight-saving change between
  the two dates compared).
\<close>

fun setHours0 :: "int \<Rightarrow> number \<Rightarrow> number" where
  "setHours0 tza (Num t) = Num (t - (t + tza) mod msPerDay)"
| "setHours0 tza NaN = NaN"

fun less_number :: "number \<Rightarrow> number \<Rightarrow> bool" where
  "less_number (Num a) (Num b) = (a < b)"
| "less_number _ _ = False"


text \<open>The validation effect; \<open>current\<close> is the clock read by \<open>new Date()\<close>.\<close>

definition validate :: "int \<Rightarrow> int \<Rightarrow> TaskForm \<Rightarrow> FormErrors" where
  "validate tza current taskForm =
     (let n = length (trim (title taskForm));
          e_title =
            (if n > 0 \<and> (n < 3 \<or> n > 120) then Some (titleLengthError 3 120)
             else if n = 0 then Some titleRequiredError
             else None);
          e_due =
            (case due_date taskForm of
               None \<Rightarrow> None
             | Some d \<Rightarrow>
                 (let today = setHours0 tza (Num current);
                      selectedDate = setHours0 tza d
                  in if less_number selectedDate today then Some dueDateInPastError else None))
      in \<lparr> errors_title = e_title, errors_due_date = e_due \<rparr>)"

section \<open>The Dashboard as an event-driven state machine\<close>

text \<open>
  The view runs on one event loop. Its state: the clock in milliseconds, the URL
  parameters, the React state \<open>tasks\<close>, \<open>pagination\<close>, \<open>loading\<close>, the notifications
  shown so far, the pending debounce timer (its due time and the \<open>searchParams\<close>
  captured by the \<open>loadTasks\<close> closure it will call), every \<open>GET /tasks\<close> issued so far
  (time and query), and the calls of \<open>loadTasks\<close> suspended at their \<open>await\<close>
  (indices into \<open>requests\<close>).
\<close>

record 'task Response =
  data_tasks :: "'task list"
  data_pagination :: PaginationMeta

datatype 'task outcome = Fulfilled "'task Response" | Rejected

datatype toast = Toast string string string

record 'task Dashboard =
  clock :: nat
  searchParams :: URLSearchParams
  tasks :: "'task list"
  pagination :: PaginationMeta
  loading :: bool
  toasts :: "toast list"
  timer :: "(nat \<times> URLSearchParams) option"
  requests :: "(nat \<times> URLSearchParams) list"
  awaiting :: "nat list"

definition errorLoadingTasks :: toast where
  "errorLoadingTasks = Toast ''dashboard.error'' ''dashboard.errorLoadingTasks'' ''destructive''"

text \<open>The state after the first render and its effects: the debounce effect has set its timer.\<close>

definition mount :: "nat \<Rightarrow> URLSearchParams \<Rightarrow> 'task Dashboard" where
  "mount t0 sp =
     \<lparr> clock = t0, searchParams = sp, tasks = [],
       pagination = \<lparr> pg_page = page sp, pg_per_page = per_page sp, total = Num 0, total_pages = Num 0 \<rparr>,
       loading = True, toasts = [], timer = Some (t0 + 500, sp), requests = [], awaiting = [] \<rparr>"

text \<open>
  \<open>loadTasks\<close> up to its \<open>await\<close>: \<open>setLoading(true)\<close>, then the request with the
  parameters the closure captured.
\<close>

definition loadTasks_call :: "URLSearchParams \<Rightarrow> 'task Dashboard \<Rightarrow> 'task Dashboard" where
  "loadTasks_call params s =
     s \<lparr> loading := True,
         requests := requests s @ [(clock s, params)],
         awaiting := awaiting s @ [length (requests s)] \<rparr>"

text \<open>
  \<open>loadTasks\<close> after its \<open>await\<close>, for the call that issued request \<open>i\<close>: the \<open>try\<close>
  branch on a response, the \<open>catch\<close> branch on a failure, \<open>finally\<close> in both. A call
  that is not suspended has nothing to resume.
\<close>

definition loadTasks_resume :: "nat \<Rightarrow> 'task outcome \<Rightarrow> 'task Dashboard \<Rightarrow> 'task Dashboard" where
  "loadTasks_resume i res s =
     (if i \<notin> set (awaiting s) then s
      else
        (case res of
           Fulfilled response \<Rightarrow>
             s \<lparr> tasks := data_tasks response,
                 pagination := data_pagination response,
                 loading := False,
                 awaiting := removeAll i (awaiting s) \<rparr>
         | Rejected \<Rightarrow>
             s \<lparr> toasts := toasts s @ [errorLoadingTasks],
                 loading := False,
                 awaiting := removeAll i (awaiting s) \<rparr>))"

text \<open>
  \<open>setSearchParams\<close>: when the query changes, \<open>searchParams\<close> is a new object, so
  \<open>loadTasks\<close> is a new closure and the debounce effect runs again: its cleanup clears
  the pending timer, its body sets a new one, 500 ms ahead. With the query unchanged
  the effect's dependency is unchanged and nothing happens.
\<close>

definition setSearchParams :: "URLSearchParams \<Rightarrow> 'task Dashboard \<Rightarrow> 'task Dashboard" where
  "setSearchParams newParams s =
     (if newParams = searchParams s then s
      else s \<lparr> searchParams := newParams, timer := Some (clock s + 500, newParams) \<rparr>)"

text \<open>
  \<open>d\<close> milliseconds pass with no other event. A pending timer that falls due fires at
  its due time and calls its \<open>loadTasks\<close>.
\<close>

definition elapse :: "nat \<Rightarrow> 'task Dashboard \<Rightarrow> 'task Dashboard" where
  "elapse d s =
     (case timer s of
        None \<Rightarrow> s \<lparr> clock := clock s + d \<rparr>
      | Some (due, params) \<Rightarrow>
          (if due \<le> clock s + d
           then (loadTasks_call params (s \<lparr> clock := due, timer := None \<rparr>)) \<lparr> clock := clock s + d \<rparr>
           else s \<lparr> clock := clock s + d \<rparr>))"

text \<open>Leaving the view: the effect's cleanup clears the timer.\<close>

definition unmount :: "'task Dashboard \<Rightarrow> 'task Dashboard" where
  "unmount s = s \<lparr> timer := None \<rparr>"

datatype 'task event =
    Change URLSearchParams
  | Elapse nat
  | Settle nat "'task outcome"

fun step :: "'task Dashboard \<Rightarrow> 'task event \<Rightarrow> 'task Dashboard" where
  "step s (Change p) = setSearchParams p s"
| "step s (Elapse d) = elapse d s"
| "step s (Settle i res) = loadTasks_resume i res s"

definition run :: "'task Dashboard \<Rightarrow> 'task event list \<Rightarrow> 'task Dashboard" where
  "run s evs = foldl step s evs"

text \<open>
  A burst of parameter changes: each pair is the time since the previous event and
  the new query.
\<close>

fun burst :: "(nat \<times> URLSearchParams) list \<Rightarrow> 'task Dashboard \<Rightarrow> 'task Dashboard" where
  "burst [] s = s"
| "burst ((gap, p) # cs) s = burst cs (setSearchParams p (elapse gap s))"

text \<open>Every pair of the burst changes the query it meets.\<close>

fun changing :: "URLSearchParams \<Rightarrow> (nat \<times> URLSearchParams) list \<Rightarrow> bool" where
  "changing p0 [] = True"
| "changing p0 ((gap, p) # cs) = (p \<noteq> p0 \<and> changing p cs)"

text \<open>Every pair of the burst comes less than 500 ms after the previous event.\<close>

fun rapid :: "(nat \<times> URLSearchParams) list \<Rightarrow> bool" where
  "rapid [] = True"
| "rapid ((gap, p) # cs) = (gap < 500 \<and> rapid cs)"


text \<open>Two server responses used in the examples: the unfiltered list and the list of done tasks.\<close>

definition page_one :: "nat Response" where
  "page_one = \<lparr> data_tasks = [1, 2],
      data_pagination = \<lparr> pg_page = Num 1, pg_per_page = Num 10, total = Num 2, total_pages = Num 1 \<rparr> \<rparr>"

definition done_only :: "nat Response" where
  "done_only = \<lparr> data_tasks = [2],
      data_pagination = \<lparr> pg_page = Num 1, pg_per_page = Num 10, total = Num 1, total_pages = Num 1 \<rparr> \<rparr>"

section \<open>Properties of URLSearchParams and of the number conversions\<close>

lemma usp_get_delete: "usp_get (usp_delete sp k) k' = (if k' = k then None else usp_get sp k')"
  by (induction sp) (auto simp: usp_get_def usp_delete_def)

lemma map_of_usp_delete: "map_of (usp_delete sp k) k' = (if k' = k then None else map_of sp k')"
  by (induction sp) (auto simp: usp_delete_def)

lemma map_of_usp_set: "map_of (usp_set sp k v) k' = (if k' = k then Some v else map_of sp k')"
  by (induction sp) (auto simp: map_of_usp_delete)

lemma usp_get_set: "usp_get (usp_set sp k v) k' = (if k' = k then Some v else usp_get sp k')"
  by (simp add: usp_get_def map_of_usp_set)

lemma keys_usp_delete: "fst ` set (usp_delete sp k) = fst ` set sp - {k}"
  by (auto simp: usp_delete_def)

lemma keys_usp_set: "fst ` set (usp_set sp k v) = insert k (fst ` set sp)"
  by (induction sp) (auto simp: keys_usp_delete usp_delete_def)

lemma usp_has_delete: "usp_has (usp_delete sp k) k' \<longleftrightarrow> k' \<noteq> k \<and> usp_has sp k'"
  by (auto simp: usp_has_def keys_usp_delete)

lemma usp_has_set: "usp_has (usp_set sp k v) k' \<longleftrightarrow> k' = k \<or> usp_has sp k'"
  by (auto simp: usp_has_def keys_usp_set)

lemma get_or_set: "get_or (usp_set sp k v) k' d = (if k' = k then (if v = [] then d else v) else get_or sp k' d)"
  by (simp add: get_or_def usp_get_set)

lemma get_or_delete: "get_or (usp_delete sp k) k' d = (if k' = k then d else get_or sp k' d)"
  by (simp add: get_or_def usp_get_delete)

lemma parseInt_1: "parseInt ''1'' = Num 1"
  by code_simp

lemma parseInt_10: "parseInt ''10'' = Num 10"
  by code_simp

lemma of_char_digitChar: "d < 10 \<Longrightarrow> (of_char (digitChar d) :: nat) = 48 + d"
  by (simp add: digitChar_def)

lemma isDigit_digitChar: "d < 10 \<Longrightarrow> isDigit (digitChar d)"
  by (simp add: isDigit_def of_char_digitChar)


lemma natDigits_not_Nil: "natDigits n \<noteq> []"
  by (subst natDigits.simps) simp

lemma natDigits_isDigit: "c \<in> set (natDigits n) \<Longrightarrow> isDigit c"
proof (induction n arbitrary: c rule: natDigits.induct)
  case (1 n)
  show ?case
  proof (cases "n < 10")
    case True
    with "1.prems" show ?thesis
      by (subst (asm) natDigits.simps) (simp add: isDigit_digitChar)
  next
    case False
    with "1.prems" have "c \<in> set (natDigits (n div 10)) \<or> c = digitChar (n mod 10)"
      by (subst (asm) natDigits.simps) auto
    then show ?thesis
      using "1.IH" [OF False] by (auto simp: isDigit_digitChar)
  qed
qed



lemma isDigit_not_space: "isDigit c \<Longrightarrow> \<not> isWhiteSpace c"
  by (auto simp: isDigit_def isWhiteSpace_def)



lemma hd_natDigits_isDigit: "isDigit (hd (natDigits n))"
  using natDigits_not_Nil [of n] natDigits_isDigit [of "hd (natDigits n)" n] by simp






lemma set_usp_set: "set (usp_set sp k v) = insert (k, v) (set (usp_delete sp k))"
  by (induction sp) (auto simp: usp_delete_def)

lemma get_or_handleFilterChange:
  "get_or (handleFilterChange sp key v) k d =
     (if k = ''page'' then ''1''
      else if k = key then strip d v
      else get_or sp k d)"
  by (simp add: handleFilterChange_def Let_def get_or_set get_or_delete strip_def isNoOp_def)

section \<open>Query-state store\<close>

text \<open>
  Claim C5. Whatever the parameters were (whatever page they named), and for every key
  and value, the parameters that \<open>handleFilterChange\<close> hands to \<open>setSearchParams\<close>
  parse to page 1. The statement needs no restriction on the key: it holds for every
  key other than \<open>page\<close>, and for \<open>page\<close> too.
\<close>

theorem page_reset: "page (handleFilterChange sp key v) = Num 1"
  by (simp add: page_def get_or_handleFilterChange parseInt_1)

theorem page_reset_witness:
  "page (handleFilterChange [(''status'', ''todo''), (''page'', ''3'')] ''status'' ''done'') = Num 1
   \<and> handleFilterChange [(''status'', ''todo''), (''page'', ''3'')] ''status'' ''done''
       = [(''status'', ''done''), (''page'', ''1'')]"
proof -
  have e: "handleFilterChange [(''status'', ''todo''), (''page'', ''3'')] ''status'' ''done''
       = [(''status'', ''done''), (''page'', ''1'')]"
    by (simp add: handleFilterChange_def usp_delete_def)
  show ?thesis
    using e page_reset [of "[(''status'', ''todo''), (''page'', ''3'')]" "''status''" "''done''"]
    by simp
qed

text \<open>
  Claim C6. When \<open>handleFilterChange\<close> is called with a no-op value (the empty string,
  \<open>all\<close> or \<open>unassigned\<close>), the key is absent from the resulting parameters and the
  no-op value is stored under no key; for \<open>page\<close>, which is no filter and is always
  rewritten to 1, the second part still holds. In particular setting \<open>status\<close> to
  \<open>all\<close> leaves no \<open>status\<close> key.
\<close>

theorem noop_stripping:
  assumes "isNoOp v"
  shows "(key \<noteq> ''page'' \<longrightarrow> \<not> usp_has (handleFilterChange sp key v) key)
       \<and> (key, v) \<notin> set (handleFilterChange sp key v)
       \<and> \<not> usp_has (handleFilterChange sp ''status'' ''all'') ''status''"
proof -
  have v: "v = [] \<or> v = ''all'' \<or> v = ''unassigned''"
    using assms by (simp add: isNoOp_def)
  have h: "handleFilterChange sp key v = usp_set (usp_delete sp key) ''page'' ''1''"
    using v by (auto simp: handleFilterChange_def Let_def)
  have a: "key \<noteq> ''page'' \<longrightarrow> \<not> usp_has (handleFilterChange sp key v) key"
    by (simp add: h usp_has_set usp_has_delete)
  have b: "(key, v) \<notin> set (handleFilterChange sp key v)"
    using v by (auto simp: h set_usp_set usp_delete_def)
  have c: "\<not> usp_has (handleFilterChange sp ''status'' ''all'') ''status''"
    by (simp add: handleFilterChange_def Let_def usp_has_set usp_has_delete)
  from a b c show ?thesis by blast
qed

theorem noop_stripping_witness:
  "isNoOp ''all''
   \<and> \<not> usp_has (handleFilterChange [(''page'', ''3''), (''status'', ''done'')] ''status'' ''all'') ''status''
   \<and> handleFilterChange [(''page'', ''3''), (''status'', ''done'')] ''status'' ''all'' = [(''page'', ''1'')]"
proof -
  have h: "isNoOp ''all''" by (simp add: isNoOp_def)
  have e: "handleFilterChange [(''page'', ''3''), (''status'', ''done'')] ''status'' ''all'' = [(''page'', ''1'')]"
    by (simp add: handleFilterChange_def usp_delete_def)
  show ?thesis
    using h e noop_stripping [OF h, of "''status''" "[(''page'', ''3''), (''status'', ''done'')]"] by simp
qed

section \<open>Parameter codec\<close>





lemma get_or_Nil: "get_or [] k d = d"
  by (simp add: get_or_def usp_get_def)





lemma takeWhile_digits_rest:
  "rest = [] \<or> \<not> isDigit (hd rest) \<Longrightarrow> takeWhile isDigit (natDigits n @ rest) = natDigits n"
proof (cases rest)
  case Nil
  then show ?thesis by (simp add: natDigits_isDigit)
next
  case (Cons c cs)
  assume "rest = [] \<or> \<not> isDigit (hd rest)"
  with Cons have "\<not> isDigit c" by simp
  with Cons show ?thesis
    by (simp add: takeWhile_append2 natDigits_isDigit)
qed

lemma dropWhile_not_space: "xs \<noteq> [] \<Longrightarrow> \<not> isWhiteSpace (hd xs) \<Longrightarrow> dropWhile isWhiteSpace (xs @ ys) = xs @ ys"
  by (cases xs) simp_all

lemma dropWhile_natDigits_rest:
  "dropWhile isWhiteSpace (natDigits n @ rest) = natDigits n @ rest"
  by (rule dropWhile_not_space [OF natDigits_not_Nil isDigit_not_space [OF hd_natDigits_isDigit]])









section \<open>Pagination controls stay within bounds\<close>




section \<open>Form validation rules\<close>

lemma errors_title_validate:
  "errors_title (validate tza current f) =
     (if length (trim (title f)) = 0 then Some titleRequiredError
      else if length (trim (title f)) < 3 \<or> 120 < length (trim (title f)) then Some (titleLengthError 3 120)
      else None)"
  by (simp add: validate_def Let_def)

lemma trim_ab: "trim ''ab'' = ''ab''"
  by code_simp

lemma trim_abc: "trim '' abc '' = ''abc''"
  by code_simp

lemma trim_blank: "trim ''  '' = []"
  by code_simp

lemma length_trim_121: "length (trim (replicate 121 CHR ''a'')) = 121"
  by code_simp

text \<open>
  Claim C7. Validation reports a title error iff the length of the trimmed title is
  outside \<open>[3, 120]\<close>. An empty trimmed title gives the message \<open>titleRequiredError\<close>,
  which differs from the length message; lengths 2 and 121 give the length message;
  lengths 3 to 120 give no title error.
\<close>

theorem title_validation:
  "(errors_title (validate tza current f) \<noteq> None
      \<longleftrightarrow> length (trim (title f)) < 3 \<or> 120 < length (trim (title f)))
   \<and> (length (trim (title f)) = 0 \<longrightarrow> errors_title (validate tza current f) = Some titleRequiredError)
   \<and> (length (trim (title f)) = 2 \<or> length (trim (title f)) = 121
        \<longrightarrow> errors_title (validate tza current f) = Some (titleLengthError 3 120))
   \<and> (3 \<le> length (trim (title f)) \<and> length (trim (title f)) \<le> 120
        \<longrightarrow> errors_title (validate tza current f) = None)
   \<and> titleRequiredError \<noteq> titleLengthError 3 120"
  by (simp add: errors_title_validate)

theorem title_validation_witness:
  "length (trim (title \<lparr> title = ''  '', description = [], form_status = ''todo'', form_priority = ''med'',
       due_date = None, form_tags = [], form_assigned_to = ''unassigned'' \<rparr>)) = 0
   \<and> errors_title (validate 0 0 \<lparr> title = ''  '', description = [], form_status = ''todo'', form_priority = ''med'',
       due_date = None, form_tags = [], form_assigned_to = ''unassigned'' \<rparr>) = Some titleRequiredError
   \<and> length (trim (title \<lparr> title = ''ab'', description = [], form_status = ''todo'', form_priority = ''med'',
       due_date = None, form_tags = [], form_assigned_to = ''unassigned'' \<rparr>)) = 2
   \<and> errors_title (validate 0 0 \<lparr> title = ''ab'', description = [], form_status = ''todo'', form_priority = ''med'',
       due_date = None, form_tags = [], form_assigned_to = ''unassigned'' \<rparr>) = Some (titleLengthError 3 120)
   \<and> length (trim (title \<lparr> title = replicate 121 CHR ''a'', description = [], form_status = ''todo'', form_priority = ''med'',
       due_date = None, form_tags = [], form_assigned_to = ''unassigned'' \<rparr>)) = 121
   \<and> errors_title (validate 0 0 \<lparr> title = replicate 121 CHR ''a'', description = [], form_status = ''todo'', form_priority = ''med'',
       due_date = None, form_tags = [], form_assigned_to = ''unassigned'' \<rparr>) = Some (titleLengthError 3 120)
   \<and> 3 \<le> length (trim (title \<lparr> title = '' abc '', description = [], form_status = ''todo'', form_priority = ''med'',
       due_date = None, form_tags = [], form_assigned_to = ''unassigned'' \<rparr>))
   \<and> length (trim (title \<lparr> title = '' abc '', description = [], form_status = ''todo'', form_priority = ''med'',
       due_date = None, form_tags = [], form_assigned_to = ''unassigned'' \<rparr>)) \<le> 120
   \<and> errors_title (validate 0 0 \<lparr> title = '' abc '', description = [], form_status = ''todo'', form_priority = ''med'',
       due_date = None, form_tags = [], form_assigned_to = ''unassigned'' \<rparr>) = None"
  using
    title_validation [of 0 0 "\<lparr> title = ''  '', description = [], form_status = ''todo'', form_priority = ''med'',
       due_date = None, form_tags = [], form_assigned_to = ''unassigned'' \<rparr>"]
    title_validation [of 0 0 "\<lparr> title = ''ab'', description = [], form_status = ''todo'', form_priority = ''med'',
       due_date = None, form_tags = [], form_assigned_to = ''unassigned'' \<rparr>"]
    title_validation [of 0 0 "\<lparr> title = replicate 121 CHR ''a'', description = [], form_status = ''todo'', form_priority = ''med'',
       due_date = None, form_tags = [], form_assigned_to = ''unassigned'' \<rparr>"]
    title_validation [of 0 0 "\<lparr> title = '' abc '', description = [], form_status = ''todo'', form_priority = ''med'',
       due_date = None, form_tags = [], form_assigned_to = ''unassigned'' \<rparr>"]
  by (simp add: trim_ab trim_abc trim_blank length_trim_121)







section \<open>Task list reconciler\<close>

lemma elapse_no_timer: "timer s = None \<Longrightarrow> requests (elapse d s) = requests s"
  by (simp add: elapse_def)

lemma mount_elapsed:
  "elapse 500 (mount 0 [] :: nat Dashboard) =
     \<lparr> clock = 500, searchParams = [], tasks = [],
       pagination = \<lparr> pg_page = Num 1, pg_per_page = Num 10, total = Num 0, total_pages = Num 0 \<rparr>,
       loading = True, toasts = [], timer = None, requests = [(500, [])], awaiting = [0] \<rparr>"
  by (simp add: elapse_def mount_def loadTasks_call_def page_def per_page_def get_or_Nil
      parseInt_1 parseInt_10)

text \<open>
  Claim C9. When the request of a suspended \<open>loadTasks\<close> call fails, the task list and
  the pagination are left as they were, the error notification is added, \<open>loading\<close> is
  cleared, and nothing is retried: no request is issued and no timer is set by the
  failure, so with no timer pending no request follows however long one waits.
\<close>

theorem failed_fetch:
  assumes "i \<in> set (awaiting s)"
  shows "tasks (loadTasks_resume i Rejected s) = tasks s
       \<and> pagination (loadTasks_resume i Rejected s) = pagination s
       \<and> toasts (loadTasks_resume i Rejected s) = toasts s @ [errorLoadingTasks]
       \<and> \<not> loading (loadTasks_resume i Rejected s)
       \<and> requests (loadTasks_resume i Rejected s) = requests s
       \<and> timer (loadTasks_resume i Rejected s) = timer s
       \<and> searchParams (loadTasks_resume i Rejected s) = searchParams s
       \<and> i \<notin> set (awaiting (loadTasks_resume i Rejected s))
       \<and> (timer s = None \<longrightarrow> requests (elapse d (loadTasks_resume i Rejected s)) = requests s)"
proof -
  have r: "loadTasks_resume i Rejected s =
             s \<lparr> toasts := toasts s @ [errorLoadingTasks], loading := False,
                 awaiting := removeAll i (awaiting s) \<rparr>"
    using assms by (simp add: loadTasks_resume_def)
  show ?thesis
    unfolding r by (simp add: elapse_def)
qed

theorem failed_fetch_witness:
  "0 \<in> set (awaiting (elapse 500 (mount 0 [] :: nat Dashboard)))
   \<and> timer (elapse 500 (mount 0 [] :: nat Dashboard)) = None
   \<and> tasks (loadTasks_resume 0 Rejected (elapse 500 (mount 0 [] :: nat Dashboard))) = []
   \<and> toasts (loadTasks_resume 0 Rejected (elapse 500 (mount 0 [] :: nat Dashboard))) = [errorLoadingTasks]
   \<and> \<not> loading (loadTasks_resume 0 Rejected (elapse 500 (mount 0 [] :: nat Dashboard)))
   \<and> requests (elapse 60000 (loadTasks_resume 0 Rejected (elapse 500 (mount 0 [] :: nat Dashboard)))) = [(500, [])]"
proof -
  have h: "0 \<in> set (awaiting (elapse 500 (mount 0 [] :: nat Dashboard)))"
    by (simp add: mount_elapsed)
  show ?thesis
    using h failed_fetch [OF h, of 60000] by (simp add: mount_elapsed)
qed

text \<open>
  Claim C1 says that the late response of an earlier fetch is discarded. In the trace
  below the first fetch (issued at 500 ms for the unfiltered list) is answered after the
  second one (issued at 1000 ms for the done tasks): its response replaces the task list
  and the pagination that the second response had produced.
\<close>

theorem stale_response_counterexample:
  "requests (run (mount 0 []) [Elapse 500, Change [(''status'', ''done''), (''page'', ''1'')], Elapse 500,
       Settle 1 (Fulfilled done_only)])
     = [(500, []), (1000, [(''status'', ''done''), (''page'', ''1'')])]
   \<and> tasks (run (mount 0 []) [Elapse 500, Change [(''status'', ''done''), (''page'', ''1'')], Elapse 500,
       Settle 1 (Fulfilled done_only)]) = [2]
   \<and> tasks (run (mount 0 []) [Elapse 500, Change [(''status'', ''done''), (''page'', ''1'')], Elapse 500,
       Settle 1 (Fulfilled done_only), Settle 0 (Fulfilled page_one)]) = [1, 2]
   \<and> pagination (run (mount 0 []) [Elapse 500, Change [(''status'', ''done''), (''page'', ''1'')], Elapse 500,
       Settle 1 (Fulfilled done_only), Settle 0 (Fulfilled page_one)]) = data_pagination page_one
   \<and> data_pagination page_one \<noteq> data_pagination done_only"
  by code_simp

text \<open>
  Claim C1, amended. \<open>loadTasks\<close> carries no sequence check: the response of every
  suspended call is applied when it arrives. For two suspended calls, the first issued
  before the second, a response to the first that arrives after the response to the
  second sets the task list and the pagination to its own.
\<close>

theorem responses_applied_on_arrival:
  assumes "i \<in> set (awaiting s)" and "j \<in> set (awaiting s)" and "i < j"
  shows "tasks (loadTasks_resume i (Fulfilled a) s) = data_tasks a
       \<and> pagination (loadTasks_resume i (Fulfilled a) s) = data_pagination a
       \<and> tasks (loadTasks_resume i (Fulfilled a) (loadTasks_resume j (Fulfilled b) s)) = data_tasks a
       \<and> pagination (loadTasks_resume i (Fulfilled a) (loadTasks_resume j (Fulfilled b) s)) = data_pagination a"
proof -
  have "i \<in> set (awaiting (loadTasks_resume j (Fulfilled b) s))"
    using assms by (simp add: loadTasks_resume_def)
  then show ?thesis
    using assms(1) by (simp add: loadTasks_resume_def)
qed

theorem responses_applied_on_arrival_witness:
  "0 \<in> set (awaiting (run (mount 0 [] :: nat Dashboard)
       [Elapse 500, Change [(''status'', ''done''), (''page'', ''1'')], Elapse 500]))
   \<and> 1 \<in> set (awaiting (run (mount 0 [] :: nat Dashboard)
       [Elapse 500, Change [(''status'', ''done''), (''page'', ''1'')], Elapse 500]))
   \<and> (0::nat) < 1
   \<and> tasks (loadTasks_resume 0 (Fulfilled page_one) (loadTasks_resume 1 (Fulfilled done_only)
        (run (mount 0 []) [Elapse 500, Change [(''status'', ''done''), (''page'', ''1'')], Elapse 500])))
      = data_tasks page_one"
proof -
  have a: "awaiting (run (mount 0 [] :: nat Dashboard)
             [Elapse 500, Change [(''status'', ''done''), (''page'', ''1'')], Elapse 500]) = [0, 1]"
    by code_simp
  have h0: "0 \<in> set (awaiting (run (mount 0 [] :: nat Dashboard)
             [Elapse 500, Change [(''status'', ''done''), (''page'', ''1'')], Elapse 500]))"
    by (simp add: a)
  have h1: "1 \<in> set (awaiting (run (mount 0 [] :: nat Dashboard)
             [Elapse 500, Change [(''status'', ''done''), (''page'', ''1'')], Elapse 500]))"
    by (simp add: a)
  have h2: "(0::nat) < 1" by simp
  show ?thesis
    using h0 h1 h2 responses_applied_on_arrival [OF h0 h1 h2, of page_one done_only] by blast
qed

section \<open>Debounced fetch scheduler\<close>

lemma setSearchParams_changed:
  "p \<noteq> searchParams s \<Longrightarrow>
     setSearchParams p s = s \<lparr> searchParams := p, timer := Some (clock s + 500, p) \<rparr>"
  by (simp add: setSearchParams_def)

lemma elapse_before_due:
  "timer s = Some (clock s + 500, q) \<Longrightarrow> d < 500 \<Longrightarrow> elapse d s = s \<lparr> clock := clock s + d \<rparr>"
  by (simp add: elapse_def)

lemma elapse_after_due:
  "timer s = Some (clock s + 500, q) \<Longrightarrow> 500 \<le> d \<Longrightarrow>
     elapse d s = s \<lparr> clock := clock s + d, loading := True, timer := None,
                      requests := requests s @ [(clock s + 500, q)],
                      awaiting := awaiting s @ [length (requests s)] \<rparr>"
  by (simp add: elapse_def loadTasks_call_def)

lemma burst_keeps_one_timer:
  "timer s = Some (clock s + 500, searchParams s) \<Longrightarrow> changing (searchParams s) cs \<Longrightarrow> rapid cs \<Longrightarrow>
     requests (burst cs s) = requests s
     \<and> timer (burst cs s) = Some (clock (burst cs s) + 500, searchParams (burst cs s))
     \<and> searchParams (burst cs s) = last (searchParams s # map snd cs)"
proof (induction cs arbitrary: s)
  case Nil
  then show ?case by simp
next
  case (Cons c cs)
  obtain gap p where c: "c = (gap, p)"
    by (cases c)
  from Cons.prems c have gap: "gap < 500" and p: "p \<noteq> searchParams s"
    and ch: "changing p cs" and ra: "rapid cs"
    by simp_all
  let ?e = "elapse gap s"
  have e: "?e = s \<lparr> clock := clock s + gap \<rparr>"
    using Cons.prems(1) gap by (rule elapse_before_due)
  have pe: "p \<noteq> searchParams ?e"
    using p by (simp add: e)
  let ?s = "setSearchParams p ?e"
  have s': "?s = ?e \<lparr> searchParams := p, timer := Some (clock ?e + 500, p) \<rparr>"
    using pe by (rule setSearchParams_changed)
  have t: "timer ?s = Some (clock ?s + 500, searchParams ?s)"
    by (simp add: s')
  have sp: "searchParams ?s = p"
    by (simp add: s')
  have rq: "requests ?s = requests s"
    by (subst s') (simp add: e)
  have ih: "requests (burst cs ?s) = requests ?s
     \<and> timer (burst cs ?s) = Some (clock (burst cs ?s) + 500, searchParams (burst cs ?s))
     \<and> searchParams (burst cs ?s) = last (searchParams ?s # map snd cs)"
    using t ch ra by (intro Cons.IH) (simp_all only: sp)
  have b: "burst (c # cs) s = burst cs ?s"
    by (simp add: c)
  show ?case
    unfolding b using ih by (simp add: rq sp c)
qed

text \<open>
  Claim C2. Take a burst of changes of the query: a first change and then any number of
  further changes, each less than 500 ms after the previous one. During the burst no
  request is issued and exactly one timer is pending, set for the last query. Waiting less
  than 500 ms after the last change issues nothing; waiting 500 ms or more issues exactly
  one request, 500 ms after the last change, with the last query, which is also the query
  current when the timer fires.
\<close>

theorem debounce_coalescing:
  assumes "p1 \<noteq> searchParams s0" and "changing p1 cs" and "rapid cs"
  shows "requests (burst cs (setSearchParams p1 s0)) = requests s0
       \<and> timer (burst cs (setSearchParams p1 s0))
           = Some (clock (burst cs (setSearchParams p1 s0)) + 500, last (p1 # map snd cs))
       \<and> searchParams (burst cs (setSearchParams p1 s0)) = last (p1 # map snd cs)
       \<and> (d < 500 \<longrightarrow> requests (elapse d (burst cs (setSearchParams p1 s0))) = requests s0)
       \<and> (500 \<le> d \<longrightarrow>
            requests (elapse d (burst cs (setSearchParams p1 s0)))
              = requests s0 @ [(clock (burst cs (setSearchParams p1 s0)) + 500, last (p1 # map snd cs))]
            \<and> searchParams (elapse d (burst cs (setSearchParams p1 s0))) = last (p1 # map snd cs)
            \<and> timer (elapse d (burst cs (setSearchParams p1 s0))) = None)"
proof -
  let ?s1 = "setSearchParams p1 s0"
  let ?sN = "burst cs ?s1"
  let ?pN = "last (p1 # map snd cs)"
  have s1: "?s1 = s0 \<lparr> searchParams := p1, timer := Some (clock s0 + 500, p1) \<rparr>"
    using assms(1) by (rule setSearchParams_changed)
  have t1: "timer ?s1 = Some (clock ?s1 + 500, searchParams ?s1)"
    by (simp add: s1)
  have sp1: "searchParams ?s1 = p1"
    by (simp add: s1)
  have r1: "requests ?s1 = requests s0"
    by (simp add: s1)
  have inv: "requests ?sN = requests ?s1
     \<and> timer ?sN = Some (clock ?sN + 500, searchParams ?sN)
     \<and> searchParams ?sN = last (searchParams ?s1 # map snd cs)"
    using t1 assms(2,3) by (intro burst_keeps_one_timer) (simp_all only: sp1)
  then have rN: "requests ?sN = requests s0"
    and tN: "timer ?sN = Some (clock ?sN + 500, ?pN)"
    and spN: "searchParams ?sN = ?pN"
    by (simp_all only: r1 sp1)
  have early: "d < 500 \<longrightarrow> requests (elapse d ?sN) = requests s0"
  proof
    assume "d < 500"
    with tN have "elapse d ?sN = ?sN \<lparr> clock := clock ?sN + d \<rparr>"
      by (rule elapse_before_due)
    then show "requests (elapse d ?sN) = requests s0"
      by (simp add: rN)
  qed
  have late: "500 \<le> d \<longrightarrow>
       requests (elapse d ?sN) = requests s0 @ [(clock ?sN + 500, ?pN)]
       \<and> searchParams (elapse d ?sN) = ?pN \<and> timer (elapse d ?sN) = None"
  proof
    assume "500 \<le> d"
    with tN have "elapse d ?sN = ?sN \<lparr> clock := clock ?sN + d, loading := True, timer := None,
                      requests := requests ?sN @ [(clock ?sN + 500, ?pN)],
                      awaiting := awaiting ?sN @ [length (requests ?sN)] \<rparr>"
      by (rule elapse_after_due)
    then show "requests (elapse d ?sN) = requests s0 @ [(clock ?sN + 500, ?pN)]
       \<and> searchParams (elapse d ?sN) = ?pN \<and> timer (elapse d ?sN) = None"
      by (simp add: rN spN)
  qed
  from rN tN spN early late show ?thesis
    by blast
qed

theorem debounce_coalescing_witness:
  "handleFilterChange clearFilters ''search'' ''b'' \<noteq> searchParams (mount 0 clearFilters :: nat Dashboard)
   \<and> changing (handleFilterChange clearFilters ''search'' ''b'')
        [(100, handleFilterChange clearFilters ''search'' ''bu''),
         (120, handleFilterChange clearFilters ''search'' ''bug'')]
   \<and> rapid [(100, handleFilterChange clearFilters ''search'' ''bu''),
         (120, handleFilterChange clearFilters ''search'' ''bug'')]
   \<and> requests (elapse 499 (burst
        [(100, handleFilterChange clearFilters ''search'' ''bu''),
         (120, handleFilterChange clearFilters ''search'' ''bug'')]
        (setSearchParams (handleFilterChange clearFilters ''search'' ''b'') (mount 0 clearFilters :: nat Dashboard)))) = []
   \<and> requests (elapse 500 (burst
        [(100, handleFilterChange clearFilters ''search'' ''bu''),
         (120, handleFilterChange clearFilters ''search'' ''bug'')]
        (setSearchParams (handleFilterChange clearFilters ''search'' ''b'') (mount 0 clearFilters :: nat Dashboard))))
      = [(720, [(''page'', ''1''), (''per_page'', ''10''), (''sort_by'', ''created_at''),
                (''sort_order'', ''desc''), (''search'', ''bug'')])]"
proof -
  have h1: "handleFilterChange clearFilters ''search'' ''b'' \<noteq> searchParams (mount 0 clearFilters :: nat Dashboard)"
    by code_simp
  have h2: "changing (handleFilterChange clearFilters ''search'' ''b'')
        [(100, handleFilterChange clearFilters ''search'' ''bu''),
         (120, handleFilterChange clearFilters ''search'' ''bug'')]"
    by code_simp
  have h3: "rapid [(100, handleFilterChange clearFilters ''search'' ''bu''),
         (120, handleFilterChange clearFilters ''search'' ''bug'')]"
    by code_simp
  have c: "clock (burst
        [(100, handleFilterChange clearFilters ''search'' ''bu''),
         (120, handleFilterChange clearFilters ''search'' ''bug'')]
        (setSearchParams (handleFilterChange clearFilters ''search'' ''b'') (mount 0 clearFilters :: nat Dashboard))) = 220"
    by code_simp
  have l: "last (handleFilterChange clearFilters ''search'' ''b'' # map snd
        [(100 :: nat, handleFilterChange clearFilters ''search'' ''bu''),
         (120, handleFilterChange clearFilters ''search'' ''bug'')])
      = [(''page'', ''1''), (''per_page'', ''10''), (''sort_by'', ''created_at''),
                (''sort_order'', ''desc''), (''search'', ''bug'')]"
    by code_simp
  have r0: "requests (mount 0 clearFilters :: nat Dashboard) = []"
    by (simp add: mount_def)
  note early = debounce_coalescing [OF h1 h2 h3, of 499, unfolded c l r0]
  note late = debounce_coalescing [OF h1 h2 h3, of 500, unfolded c l r0]
  show ?thesis
    using h1 h2 h3 early late by simp
qed

end
